theory Spec2Isabelle
  imports Complex_Main "HOL-Library.AList"
begin

section \<open>JavaScript strings\<close>

text \<open>
  A JavaScript string is modelled as the list of its code units, every code unit below
  256 (the Latin-1 range), so \<^typ>\<open>string\<close> is used as it is. The white space of
  \<^verbatim>\<open>String.prototype.trim\<close>, of the regular expression class \<^verbatim>\<open>\s\<close> and of
  \<^verbatim>\<open>parseFloat\<close> is the same set: TAB, LF, VT, FF, CR, SPACE and NBSP in this range.
\<close>

definition is_space :: "char \<Rightarrow> bool" where
  "is_space c = (c \<in> set [CHR 0x09, CHR 0x0A, CHR 0x0B, CHR 0x0C, CHR 0x0D, CHR 0x20, CHR 0xA0])"

definition is_digit :: "char \<Rightarrow> bool" where
  "is_digit c = (c \<in> set ''0123456789'')"

text \<open>The regular expression class \<^verbatim>\<open>\w\<close>: ASCII letters, digits and the underscore.\<close>

definition is_word :: "char \<Rightarrow> bool" where
  "is_word c = (c \<in> set ''abcdefghijklmnopqrstuvwxyzABCDEFGHIJKLMNOPQRSTUVWXYZ0123456789_'')"

definition trim :: "string \<Rightarrow> string" where
  "trim s = rev (dropWhile is_space (rev (dropWhile is_space s)))"

text \<open>
  \<^verbatim>\<open>s.split(sep)\<close> for a separator of one character: the pieces between the
  separators, always at least one piece (\<^verbatim>\<open>"".split(",")\<close> is \<^verbatim>\<open>[""]\<close>).
\<close>

fun split :: "char \<Rightarrow> string \<Rightarrow> string list" where
  "split sep [] = [[]]"
| "split sep (c # cs) =
     (if c = sep then [] # split sep cs
      else (case split sep cs of
              [] \<Rightarrow> [[c]]
            | p # ps \<Rightarrow> (c # p) # ps))"

text \<open>\<^verbatim>\<open>xs.join(sep)\<close>.\<close>

fun join :: "string \<Rightarrow> string list \<Rightarrow> string" where
  "join sep [] = []"
| "join sep [x] = x"
| "join sep (x # y # ys) = x @ sep @ join sep (y # ys)"

section \<open>JavaScript numbers\<close>

text \<open>
  A Number is an IEEE 754 binary64 value: NaN, an infinity, or a finite value with a
  sign (the flag is true for a negative number, so that \<open>-0\<close> exists) and a magnitude,
  kept as the exact rational it denotes. Every operation computes exactly on the
  rationals and rounds once, to nearest with ties to even, as IEEE 754 prescribes.
\<close>

datatype number = NaN | Infinity bool | Finite bool rat

definition pow2 :: "int \<Rightarrow> rat" where
  "pow2 e = (if 0 \<le> e then 2 ^ nat e else 1 / 2 ^ nat (- e))"

definition pow10 :: "int \<Rightarrow> rat" where
  "pow10 e = (if 0 \<le> e then 10 ^ nat e else 1 / 10 ^ nat (- e))"

text \<open>The number of digits of a natural number in base \<open>b\<close> (0 has none).\<close>

fun ndigits :: "nat \<Rightarrow> nat \<Rightarrow> nat" where
  "ndigits b n = (if n = 0 \<or> b < 2 then 0 else Suc (ndigits b (n div b)))"

declare ndigits.simps [simp del]

text \<open>
  \<open>floor_log b q\<close> is the integer \<open>e\<close> with \<open>b ^ e \<le> q < b ^ (e + 1)\<close>, for
  \<open>q > 0\<close>.
\<close>

definition floor_log :: "nat \<Rightarrow> rat \<Rightarrow> int" where
  "floor_log b q =
     (if 1 \<le> q then int (ndigits b (nat \<lfloor>q\<rfloor>)) - 1
      else - int (ndigits b (nat \<lceil>1 / q\<rceil> - 1)))"

definition round_half_even :: "rat \<Rightarrow> int" where
  "round_half_even r =
     (let f = \<lfloor>r\<rfloor>; d = r - of_int f in
      if d < 1 / 2 then f
      else if 1 / 2 < d then f + 1
      else if even f then f else f + 1)"

text \<open>
  Rounding a magnitude to binary64: 53 significant bits, the least exponent of a
  normal number is \<open>-1022\<close> (below it the spacing stays \<open>2 ^ -1074\<close>), and a result
  of \<open>2 ^ 1024\<close> or more is an overflow, \<open>None\<close>.
\<close>

definition round_binary64 :: "rat \<Rightarrow> rat option" where
  "round_binary64 q =
     (if q \<le> 0 then Some 0
      else
        let e = max (floor_log 2 q) (- 1022);
            ulp = pow2 (e - 52);
            r = of_int (round_half_even (q / ulp)) * ulp
        in if pow2 1024 \<le> r then None else Some r)"

definition to_number :: "bool \<Rightarrow> rat \<Rightarrow> number" where
  "to_number neg q =
     (case round_binary64 q of
        None \<Rightarrow> Infinity neg
      | Some r \<Rightarrow> Finite neg r)"

text \<open>The operators \<^verbatim>\<open>/\<close> and \<^verbatim>\<open>*\<close> on Numbers.\<close>

fun num_div :: "number \<Rightarrow> number \<Rightarrow> number" where
  "num_div NaN y = NaN"
| "num_div x NaN = NaN"
| "num_div (Infinity s) (Infinity t) = NaN"
| "num_div (Infinity s) (Finite t y) = Infinity (s \<noteq> t)"
| "num_div (Finite s x) (Infinity t) = Finite (s \<noteq> t) 0"
| "num_div (Finite s x) (Finite t y) =
     (if y = 0 then (if x = 0 then NaN else Infinity (s \<noteq> t))
      else to_number (s \<noteq> t) (x / y))"

fun num_mul :: "number \<Rightarrow> number \<Rightarrow> number" where
  "num_mul NaN y = NaN"
| "num_mul x NaN = NaN"
| "num_mul (Infinity s) (Infinity t) = Infinity (s \<noteq> t)"
| "num_mul (Infinity s) (Finite t y) = (if y = 0 then NaN else Infinity (s \<noteq> t))"
| "num_mul (Finite s x) (Infinity t) = (if x = 0 then NaN else Infinity (s \<noteq> t))"
| "num_mul (Finite s x) (Finite t y) = to_number (s \<noteq> t) (x * y)"

definition isNaN :: "number \<Rightarrow> bool" where
  "isNaN x = (case x of NaN \<Rightarrow> True | _ \<Rightarrow> False)"

text \<open>
  \<^verbatim>\<open>Number.prototype.toString\<close> (radix 10), as ECMAScript defines it: the digits are
  those of the integer \<open>s\<close> with the fewest digits \<open>k\<close> such that \<open>s * 10 ^ (n - k)\<close>
  rounds to the number, the one closest to the number when several qualify; the
  position \<open>n\<close> of the decimal point chooses between plain and exponent notation.
  A binary64 value never needs more than 17 digits, which bounds the search.
\<close>

fun digits_of :: "nat \<Rightarrow> string" where
  "digits_of n =
     (if n < 10 then [''0123456789'' ! n]
      else digits_of (n div 10) @ [''0123456789'' ! (n mod 10)])"

declare digits_of.simps [simp del]

definition candidates :: "rat \<Rightarrow> int \<Rightarrow> nat \<Rightarrow> (int \<times> int) list" where
  "candidates x n0 k =
     [(s, n).
        n \<leftarrow> [n0, n0 + 1],
        s \<leftarrow> [\<lfloor>x / pow10 (n - int k)\<rfloor>, \<lfloor>x / pow10 (n - int k)\<rfloor> + 1],
        10 ^ (k - 1) \<le> s \<and> s < 10 ^ k \<and>
        round_binary64 (of_int s * pow10 (n - int k)) = Some x]"

definition distance :: "rat \<Rightarrow> nat \<Rightarrow> int \<times> int \<Rightarrow> rat" where
  "distance x k c = \<bar>of_int (fst c) * pow10 (snd c - int k) - x\<bar>"

fun closest :: "rat \<Rightarrow> nat \<Rightarrow> int \<times> int \<Rightarrow> (int \<times> int) list \<Rightarrow> int \<times> int" where
  "closest x k c [] = c"
| "closest x k c (d # ds) =
     closest x k
       (if distance x k d < distance x k c \<or>
           (distance x k d = distance x k c \<and> even (fst d) \<and> odd (fst c))
        then d else c) ds"

function shortest :: "rat \<Rightarrow> int \<Rightarrow> nat \<Rightarrow> (int \<times> int) \<times> nat" where
  "shortest x n0 k =
     (case candidates x n0 k of
        c # cs \<Rightarrow> (closest x k c cs, k)
      | [] \<Rightarrow>
          if 17 \<le> k then ((round_half_even (x / pow10 (n0 - int k)), n0), k)
          else shortest x n0 (Suc k))"
  by pat_completeness auto
termination
  by (relation "measure (\<lambda>(x, n0, k). 17 - k)") auto

declare shortest.simps [simp del]

definition format_digits :: "string \<Rightarrow> int \<Rightarrow> string" where
  "format_digits ds n =
     (let k = int (length ds) in
      if k \<le> n \<and> n \<le> 21 then ds @ replicate (nat (n - k)) CHR ''0''
      else if 0 < n \<and> n \<le> 21 then take (nat n) ds @ ''.'' @ drop (nat n) ds
      else if - 6 < n \<and> n \<le> 0 then ''0.'' @ replicate (nat (- n)) CHR ''0'' @ ds
      else
        let e = n - 1;
            exponent = ''e'' @ (if e < 0 then ''-'' else ''+'') @ digits_of (nat \<bar>e\<bar>)
        in if k = 1 then ds @ exponent
           else take 1 ds @ ''.'' @ drop 1 ds @ exponent)"

definition toString :: "number \<Rightarrow> string" where
  "toString x =
     (case x of
        NaN \<Rightarrow> ''NaN''
      | Infinity neg \<Rightarrow> (if neg then ''-Infinity'' else ''Infinity'')
      | Finite neg m \<Rightarrow>
          if m = 0 then ''0''
          else
            let ((s, n), k) = shortest m (floor_log 10 m + 1) 1
            in (if neg then ''-'' else []) @ format_digits (digits_of (nat s)) n)"

text \<open>
  \<^verbatim>\<open>Number.parseFloat\<close>: leading white space is skipped, then the longest prefix that
  is a decimal literal is read (an optional sign, then digits with an optional
  fraction, or a fraction alone) and whatever follows it is ignored; without such a
  prefix the result is NaN. The exponent part and the literal \<^verbatim>\<open>Infinity\<close> need a
  letter, which no string that reaches \<^verbatim>\<open>parseFloat\<close> in this program contains (the
  caller checks the characters first), so they are left out.
\<close>

definition digits_value :: "string \<Rightarrow> nat" where
  "digits_value ds = foldl (\<lambda>a c. 10 * a + (of_char c - 48)) 0 ds"

definition parseFloat :: "string \<Rightarrow> number" where
  "parseFloat str =
     (let s1 = dropWhile is_space str;
          neg = (s1 \<noteq> [] \<and> hd s1 = CHR ''-'');
          s2 = (if s1 \<noteq> [] \<and> (hd s1 = CHR ''-'' \<or> hd s1 = CHR ''+'') then tl s1 else s1);
          ip = takeWhile is_digit s2;
          r = dropWhile is_digit s2;
          fp = (if r \<noteq> [] \<and> hd r = CHR ''.'' then takeWhile is_digit (tl r) else [])
      in if ip = [] \<and> fp = [] then NaN
         else to_number neg
                (of_nat (digits_value ip) + of_nat (digits_value fp) / 10 ^ length fp))"

section \<open>JavaScript objects used as string tables\<close>

text \<open>
  \<^verbatim>\<open>Record<string, string>\<close> is a plain object created by \<^verbatim>\<open>{}\<close>: its own
  properties, kept here in creation order, and the prototype \<^verbatim>\<open>Object.prototype\<close>
  behind them.
\<close>

type_synonym js_object = "(string \<times> string) list"

definition object_prototype_properties :: "string list" where
  "object_prototype_properties =
     [''constructor'', ''__defineGetter__'', ''__defineSetter__'', ''hasOwnProperty'',
      ''__lookupGetter__'', ''__lookupSetter__'', ''isPrototypeOf'',
      ''propertyIsEnumerable'', ''toString'', ''valueOf'', ''__proto__'',
      ''toLocaleString'']"

text \<open>The operator \<^verbatim>\<open>key in obj\<close> looks through the prototype chain.\<close>

definition has_property :: "string \<Rightarrow> js_object \<Rightarrow> bool" where
  "has_property key obj =
     (key \<in> set (map fst obj) \<or> key \<in> set object_prototype_properties)"

text \<open>
  \<^verbatim>\<open>obj[key]\<close> where a string is expected (the value a \<^verbatim>\<open>replaceAll\<close> callback
  returns is converted to a string): an own property gives its value; an inherited
  one gives the text of a built-in function, \<^verbatim>\<open>function NAME() { [native code] }\<close>
  as V8 prints it, or of \<^verbatim>\<open>Object.prototype\<close> itself for \<^verbatim>\<open>__proto__\<close>. The key is
  one for which \<^verbatim>\<open>key in obj\<close> holds.
\<close>

definition get_property_text :: "string \<Rightarrow> js_object \<Rightarrow> string" where
  "get_property_text key obj =
     (case map_of obj key of
        Some v \<Rightarrow> v
      | None \<Rightarrow>
          if key = ''__proto__'' then ''[object Object]''
          else if key = ''constructor'' then ''function Object() { [native code] }''
          else ''function '' @ key @ ''() { [native code] }'')"

text \<open>
  \<^verbatim>\<open>obj[key] = value\<close> for a string value: an own property is written or created,
  except that \<^verbatim>\<open>__proto__\<close> is the prototype's setter, which ignores a string.
\<close>

definition set_property :: "string \<Rightarrow> string \<Rightarrow> js_object \<Rightarrow> js_object" where
  "set_property key v obj = (if key = ''__proto__'' then obj else AList.update key v obj)"

text \<open>
  \<^verbatim>\<open>Object.keys\<close>: the keys that are array indices (canonical numerals up to
  \<open>2^32 - 2\<close>) in ascending order, then the other keys in creation order.
\<close>

definition is_array_index :: "string \<Rightarrow> bool" where
  "is_array_index key =
     (key \<noteq> [] \<and> list_all is_digit key \<and> (key = ''0'' \<or> hd key \<noteq> CHR ''0'') \<and>
      length key \<le> 10 \<and> digits_value key \<le> 4294967294)"

definition object_keys :: "js_object \<Rightarrow> string list" where
  "object_keys obj =
     sort_key digits_value (filter is_array_index (map fst obj)) @
     filter (\<lambda>k. \<not> is_array_index k) (map fst obj)"

section \<open>The template interpolator\<close>

text \<open>
  Every function returns its value together with the lines it writes with
  \<^verbatim>\<open>console.warn\<close>, in the order they are written.
\<close>

record ParsedReference =
  filePath :: string
  variables :: js_object

text \<open>
  The regular expression \<^verbatim>\<open>/^~([^{]+)(?:\{([^}]+)\})?$/\<close>: after the tilde, the path is
  the longest run of characters other than an opening brace and is not empty; then
  the string ends, or a brace group follows whose content is not empty and holds no
  closing brace, and the string ends after its closing brace. The result is the
  pair of the two groups.
\<close>

definition match_reference :: "string \<Rightarrow> (string \<times> string option) option" where
  "match_reference ref =
     (case ref of
        [] \<Rightarrow> None
      | c # rest \<Rightarrow>
          let path = takeWhile (\<lambda>x. x \<noteq> CHR ''{'') rest;
              tail = dropWhile (\<lambda>x. x \<noteq> CHR ''{'') rest;
              vs = takeWhile (\<lambda>x. x \<noteq> CHR ''}'') (tl tail);
              after = dropWhile (\<lambda>x. x \<noteq> CHR ''}'') (tl tail)
          in if c = CHR ''~'' \<and> path \<noteq> [] then
               (if tail = [] then Some (path, None)
                else if vs \<noteq> [] \<and> after = ''}'' then Some (path, Some vs)
                else None)
             else None)"

text \<open>One turn of the loop over the pairs, and the warning of a pair it skips.\<close>

definition pair_warning :: "string \<Rightarrow> string \<Rightarrow> string" where
  "pair_warning ref pair =
     ''Invalid variable pair in reference '' @ ref @ '': '' @ [CHR 0x22] @ pair @ [CHR 0x22]"

definition parse_pair :: "string \<Rightarrow> js_object \<times> string list \<Rightarrow> string \<Rightarrow> js_object \<times> string list" where
  "parse_pair ref acc pair =
     (let skipped = (fst acc, snd acc @ [pair_warning ref pair])
      in case map trim (split CHR ''='' pair) of
           [] \<Rightarrow> skipped
         | [key] \<Rightarrow> skipped
         | key # val # others \<Rightarrow>
             if key = [] then skipped else (set_property key val (fst acc), snd acc))"

definition parseReference :: "string \<Rightarrow> ParsedReference option \<times> string list" where
  "parseReference ref =
     (if \<not> (ref \<noteq> [] \<and> hd ref = CHR ''~'') then
        (None, [''Invalid Lua reference (missing ~ prefix): '' @ ref])
      else
        case match_reference ref of
          None \<Rightarrow> (None, [''Malformed Lua reference syntax: '' @ ref])
        | Some (path, variablesString) \<Rightarrow>
            (case variablesString of
               None \<Rightarrow> (Some \<lparr>filePath = path, variables = []\<rparr>, [])
             | Some vs \<Rightarrow>
                 let (vars, warnings) = foldl (parse_pair ref) ([], []) (split CHR '','' vs)
                 in (Some \<lparr>filePath = path, variables = vars\<rparr>, warnings)))"

text \<open>
  The character class of \<^verbatim>\<open>/^[\d\s+\-*/().]+$/\<close>, and the evaluator. No operation in
  the body of its \<^verbatim>\<open>try\<close> block throws, so the \<^verbatim>\<open>catch\<close> branch is never taken and
  is left out.
\<close>

definition safe_char :: "char \<Rightarrow> bool" where
  "safe_char c = (is_digit c \<or> is_space c \<or> c \<in> set ''+-*/().'')"

definition evaluateExpression :: "string \<Rightarrow> string \<times> string list" where
  "evaluateExpression expression =
     (if \<not> (expression \<noteq> [] \<and> list_all safe_char expression) then
        (expression, [''Unsafe expression detected, skipping evaluation: '' @ expression])
      else
        let trimmed = trim expression;
            quotient = map (\<lambda>p. parseFloat (trim p)) (split CHR ''/'' trimmed);
            product = map (\<lambda>p. parseFloat (trim p)) (split CHR ''*'' trimmed)
        in if CHR ''/'' \<in> set trimmed \<and> length quotient = 2 \<and>
              list_all (\<lambda>p. \<not> isNaN p) quotient
           then (toString (num_div (quotient ! 0) (quotient ! 1)), [])
           else if CHR ''*'' \<in> set trimmed \<and> length product = 2 \<and>
              list_all (\<lambda>p. \<not> isNaN p) product
           then (toString (num_mul (product ! 0) (product ! 1)), [])
           else (expression,
                 [''Expression format not supported for evaluation: '' @ expression]))"

text \<open>What is left after a run of characters and the character that ends it is shorter.\<close>

lemma length_after_run: "length (dropWhile P xs) - Suc 0 < Suc (length xs)"
  using length_dropWhile_le [of P xs] by simp

text \<open>
  The first pass, \<^verbatim>\<open>replaceAll(/\$(\w+)\$/g, ...)\<close>: the string is scanned from the
  left; where a dollar sign, a non-empty run of word characters and a dollar sign
  stand, the callback's result replaces them and the scan goes on after them. The
  result is the new text, the names marked used, and the warnings.
\<close>

function first_pass :: "js_object \<Rightarrow> string \<Rightarrow> string \<times> string list \<times> string list" where
  "first_pass vars [] = ([], [], [])"
| "first_pass vars (c # rest) =
     (let varName = takeWhile is_word rest;
          after = dropWhile is_word rest
      in if c = CHR ''$'' \<and> varName \<noteq> [] \<and> after \<noteq> [] \<and> hd after = CHR ''$'' then
           (case first_pass vars (tl after) of
              (out, used, warnings) \<Rightarrow>
                if has_property varName vars then
                  (get_property_text varName vars @ out, varName # used, warnings)
                else
                  (''$'' @ varName @ ''$'' @ out, used,
                   (''Undefined template variable: '' @ varName @ '' (placeholder: $'' @
                      varName @ ''$)'') # warnings))
         else
           (case first_pass vars rest of
              (out, used, warnings) \<Rightarrow> (c # out, used, warnings)))"
  by pat_completeness auto
termination
  by (relation "measure (\<lambda>(vars, s). length s)") (auto simp: length_after_run)

declare first_pass.simps [simp del]

text \<open>
  The second pass, \<^verbatim>\<open>replaceAll(/\(([^()]+)\)/g, ...)\<close>: a group is an opening
  parenthesis, a non-empty run without parentheses and a closing parenthesis; it is
  evaluated when the run holds one of \<^verbatim>\<open>+ - * /\<close>.
\<close>

definition is_paren :: "char \<Rightarrow> bool" where
  "is_paren c = (c = CHR ''('' \<or> c = CHR '')'')"

function second_pass :: "string \<Rightarrow> string \<times> string list" where
  "second_pass [] = ([], [])"
| "second_pass (c # rest) =
     (let expression = takeWhile (\<lambda>x. \<not> is_paren x) rest;
          after = dropWhile (\<lambda>x. \<not> is_paren x) rest
      in if c = CHR ''('' \<and> expression \<noteq> [] \<and> after \<noteq> [] \<and> hd after = CHR '')'' then
           (case second_pass (tl after) of
              (out, warnings) \<Rightarrow>
                if list_ex (\<lambda>x. x \<in> set ''+-*/'') expression then
                  (''('' @ fst (evaluateExpression expression) @ '')'' @ out,
                   snd (evaluateExpression expression) @ warnings)
                else (''('' @ expression @ '')'' @ out, warnings))
         else
           (case second_pass rest of
              (out, warnings) \<Rightarrow> (c # out, warnings)))"
  by pat_completeness auto
termination
  by (relation "measure length") (auto simp: length_after_run)

declare second_pass.simps [simp del]

definition interpolateTemplate :: "string \<Rightarrow> js_object \<Rightarrow> string \<times> string list" where
  "interpolateTemplate template vars =
     (case first_pass vars template of
        (interpolated, usedVariables, warnings1) \<Rightarrow>
          (case second_pass interpolated of
             (result, warnings2) \<Rightarrow>
               let unusedVariables = filter (\<lambda>v. v \<notin> set usedVariables) (object_keys vars)
               in (result,
                   warnings1 @ warnings2 @
                   (if length unusedVariables > 0 then
                      [''Template variables provided but not used: '' @
                         join '', '' unusedVariables]
                    else []))))"

text \<open>
  The bundle is a \<^verbatim>\<open>Map<string, string>\<close>; \<^verbatim>\<open>!template\<close> holds for a missing
  entry (\<^verbatim>\<open>undefined\<close>) and for the empty string.
\<close>

definition processLuaReference :: "string \<Rightarrow> (string \<rightharpoonup> string) \<Rightarrow> string option \<times> string list" where
  "processLuaReference ref luaFileMap =
     (case parseReference ref of
        (None, warnings) \<Rightarrow> (None, warnings)
      | (Some parsed, warnings) \<Rightarrow>
          (let notFound = ''Lua file not found in bundle: '' @ filePath parsed @
                          '' (from reference: '' @ ref @ '')''
           in (case luaFileMap (filePath parsed) of
                 None \<Rightarrow> (None, warnings @ [notFound])
               | Some template \<Rightarrow>
                   (if template = [] then (None, warnings @ [notFound])
                    else if length (object_keys (variables parsed)) = 0 then
                      (Some template, warnings)
                    else
                      (Some (fst (interpolateTemplate template (variables parsed))),
                       warnings @ snd (interpolateTemplate template (variables parsed)))))))"

subsection \<open>The first pass, said with tokens\<close>

text \<open>
  A template read as the first pass reads it: placeholders \<^verbatim>\<open>$NAME$\<close> and the
  characters between them. Replacing each placeholder whose name is a key of the
  variables by the value of the key, and leaving the others, is \<open>substitute\<close>.
\<close>

datatype token = Text char | Placeholder string

function tokens :: "string \<Rightarrow> token list" where
  "tokens [] = []"
| "tokens (c # rest) =
     (let varName = takeWhile is_word rest;
          after = dropWhile is_word rest
      in if c = CHR ''$'' \<and> varName \<noteq> [] \<and> after \<noteq> [] \<and> hd after = CHR ''$'' then
           Placeholder varName # tokens (tl after)
         else Text c # tokens rest)"
  by pat_completeness auto
termination
  by (relation "measure length") (auto simp: length_after_run)

declare tokens.simps [simp del]

definition source_of :: "token \<Rightarrow> string" where
  "source_of t = (case t of Text c \<Rightarrow> [c] | Placeholder name \<Rightarrow> ''$'' @ name @ ''$'')"

definition substitute :: "js_object \<Rightarrow> token \<Rightarrow> string" where
  "substitute vars t =
     (case t of
        Text c \<Rightarrow> [c]
      | Placeholder name \<Rightarrow>
          (case map_of vars name of Some v \<Rightarrow> v | None \<Rightarrow> ''$'' @ name @ ''$''))"

definition placeholder_at :: "char \<Rightarrow> string \<Rightarrow> bool" where
  "placeholder_at c rest =
     (c = CHR ''$'' \<and> takeWhile is_word rest \<noteq> [] \<and> dropWhile is_word rest \<noteq> [] \<and>
      hd (dropWhile is_word rest) = CHR ''$'')"

subsection \<open>What a variable pair records, said without \<^verbatim>\<open>split\<close>\<close>

text \<open>
  The key of a pair is the trimmed text before its first \<^verbatim>\<open>=\<close>; its value is the
  trimmed text between the first \<^verbatim>\<open>=\<close> and the second (or the end), and is missing
  when the pair holds no \<^verbatim>\<open>=\<close>. A pair is recorded when its key is not empty and its
  value is not missing, and of the recorded pairs with one key the last one counts.
\<close>

definition pair_key :: "string \<Rightarrow> string" where
  "pair_key pair = trim (takeWhile (\<lambda>c. c \<noteq> CHR ''='') pair)"

definition pair_value :: "string \<Rightarrow> string option" where
  "pair_value pair =
     (case dropWhile (\<lambda>c. c \<noteq> CHR ''='') pair of
        [] \<Rightarrow> None
      | e # rest \<Rightarrow> Some (trim (takeWhile (\<lambda>c. c \<noteq> CHR ''='') rest)))"

definition recorded_pair :: "string \<Rightarrow> bool" where
  "recorded_pair pair = (pair_key pair \<noteq> [] \<and> pair_value pair \<noteq> None)"

definition recorded_value :: "string \<Rightarrow> string list \<Rightarrow> string option" where
  "recorded_value key pairs =
     (let recorded = filter (\<lambda>p. recorded_pair p \<and> pair_key p = key) pairs
      in if recorded = [] then None else pair_value (last recorded))"

text \<open>What a pair does to the variables recorded so far.\<close>

definition record_step :: "js_object \<Rightarrow> string \<Rightarrow> js_object" where
  "record_step vars pair =
     (if recorded_pair pair then set_property (pair_key pair) (the (pair_value pair)) vars
      else vars)"

text \<open>
  The value the specification gives a pair: everything after its first \<^verbatim>\<open>=\<close>,
  trimmed.
\<close>

definition value_after_first_equals :: "string \<Rightarrow> string option" where
  "value_after_first_equals pair =
     (case dropWhile (\<lambda>c. c \<noteq> CHR ''='') pair of
        [] \<Rightarrow> None
      | e # rest \<Rightarrow> Some (trim rest))"

section \<open>Stored configurations\<close>

text \<open>
  What \<^verbatim>\<open>JSON.parse\<close> can put in the field \<^verbatim>\<open>configuration\<close> of a stored
  configuration, and \<^verbatim>\<open>undefined\<close> for a field that is absent. An object is the
  list of its own enumerable properties in creation order, each key once; an array is
  an object whose keys are its indices.
\<close>

datatype jsvalue =
    JUndefined
  | JNull
  | JBoolean bool
  | JNumber number
  | JString string
  | JObject "(string \<times> jsvalue) list"

record StoredConfiguration =
  configuration :: jsvalue
  gitSha :: string

definition truthy :: "jsvalue \<Rightarrow> bool" where
  "truthy v =
     (case v of
        JUndefined \<Rightarrow> False
      | JNull \<Rightarrow> False
      | JBoolean b \<Rightarrow> b
      | JNumber n \<Rightarrow> n \<noteq> NaN \<and> n \<noteq> Finite False 0 \<and> n \<noteq> Finite True 0
      | JString s \<Rightarrow> s \<noteq> []
      | JObject ps \<Rightarrow> True)"

definition typeof :: "jsvalue \<Rightarrow> string" where
  "typeof v =
     (case v of
        JUndefined \<Rightarrow> ''undefined''
      | JNull \<Rightarrow> ''object''
      | JBoolean b \<Rightarrow> ''boolean''
      | JNumber n \<Rightarrow> ''number''
      | JString s \<Rightarrow> ''string''
      | JObject ps \<Rightarrow> ''object'')"

text \<open>
  The own enumerable properties an object spread \<^verbatim>\<open>{...v}\<close> copies: those of an
  object, the indexed characters of a string, none of any other value.
\<close>

definition own_properties :: "jsvalue \<Rightarrow> (string \<times> jsvalue) list" where
  "own_properties v =
     (case v of
        JObject ps \<Rightarrow> ps
      | JString s \<Rightarrow> zip (map digits_of [0..<length s]) (map (\<lambda>c. JString [c]) s)
      | _ \<Rightarrow> [])"

definition copy_properties :: "(string \<times> jsvalue) list \<Rightarrow> (string \<times> jsvalue) list \<Rightarrow> (string \<times> jsvalue) list" where
  "copy_properties target source = foldl (\<lambda>obj p. AList.update (fst p) (snd p) obj) target source"

text \<open>
  \<^verbatim>\<open>process.env.NEXT_PUBLIC_GIT_SHA ?? 'development'\<close>; the environment variable
  is a parameter.
\<close>

definition getCurrentGitSha :: "string option \<Rightarrow> string" where
  "getCurrentGitSha env = (case env of None \<Rightarrow> ''development'' | Some sha \<Rightarrow> sha)"

text \<open>
  \<^verbatim>\<open>DEFAULT_CONFIGURATION\<close> is defined in a module that is not among the sources; it
  is a parameter, the list of the properties of that object.
\<close>

definition validateStoredConfiguration ::
    "(string \<times> jsvalue) list \<Rightarrow> string option \<Rightarrow> StoredConfiguration \<Rightarrow> StoredConfiguration option" where
  "validateStoredConfiguration DEFAULT_CONFIGURATION env stored =
     (if \<not> truthy (configuration stored) \<or> typeof (configuration stored) \<noteq> ''object'' then None
      else
        Some \<lparr>configuration =
                JObject (copy_properties (copy_properties [] DEFAULT_CONFIGURATION)
                           (own_properties (configuration stored))),
              gitSha = getCurrentGitSha env\<rparr>)"

definition is_object :: "jsvalue \<Rightarrow> bool" where
  "is_object v = (case v of JObject ps \<Rightarrow> True | _ \<Rightarrow> False)"

section \<open>The command builder\<close>

text \<open>
  Modelled from the spec: the command builder (\<^verbatim>\<open>@/lib/commands/command-builder\<close>,
  with \<^verbatim>\<open>buildLobbySections\<close> and what it calls), the comment helpers
  (\<^verbatim>\<open>@/lib/lua-comments\<close>), the encoder (\<^verbatim>\<open>@/lib/base64\<close>) and the constants of
  \<^verbatim>\<open>@/lib/data/configuration-mapping\<close> are not among the sources; only the test that
  calls them is. The definitions of this section follow sections 3 and 4.4 to 4.7 of
  the specification. The constants and the encoder are parameters, kept in a record;
  a configuration is the list of its keys in schema order, each with its value already
  converted to a string.
\<close>

record TweakValue =
  command :: "string list option"
  tweakdefs :: "string list option"
  tweakunits :: "string list option"

record build_env =
  MAX_COMMAND_LENGTH :: nat
  MAX_SLOTS_PER_TYPE :: nat
  BASE_COMMANDS :: "string list"
  BASE_TWEAKS :: TweakValue
  CONFIGURATION_MAPPING :: "string \<Rightarrow> string \<Rightarrow> TweakValue option"
  encode :: "string \<Rightarrow> string"

datatype build_error = FragmentTooLarge string string | TooManySlots string nat

text \<open>Modelled from the spec: a list of a tweak value, empty when it is absent (section 3).\<close>

definition listed :: "string list option \<Rightarrow> string list" where
  "listed xs = (case xs of None \<Rightarrow> [] | Some ys \<Rightarrow> ys)"

text \<open>
  Modelled from the spec: the configuration mapper (section 4.4). The base commands
  and base references come first; then each key, in order, adds the lists of the
  entry its value selects, and a value without an entry adds nothing.
\<close>

definition add_tweak ::
    "build_env \<Rightarrow> string list \<times> string list \<times> string list \<Rightarrow> string \<times> string \<Rightarrow>
     string list \<times> string list \<times> string list" where
  "add_tweak env acc setting =
     (case CONFIGURATION_MAPPING env (fst setting) (snd setting) of
        None \<Rightarrow> acc
      | Some tweak \<Rightarrow>
          (fst acc @ listed (command tweak),
           fst (snd acc) @ listed (tweakdefs tweak),
           snd (snd acc) @ listed (tweakunits tweak)))"

definition mapToTweaks ::
    "build_env \<Rightarrow> (string \<times> string) list \<Rightarrow> string list \<times> string list \<times> string list" where
  "mapToTweaks env config =
     foldl (add_tweak env)
       (BASE_COMMANDS env, listed (tweakdefs (BASE_TWEAKS env)),
        listed (tweakunits (BASE_TWEAKS env)))
       config"

text \<open>
  Modelled from the spec: the source annotator (section 4.5). One Lua comment line
  with the marker and the reference, a line feed, the source text.
\<close>

definition annotate :: "string \<Rightarrow> string \<Rightarrow> string" where
  "annotate sourceText reference = ''-- Source: '' @ reference @ [CHR 0x0A] @ sourceText"

text \<open>
  Modelled from the spec: resolving and annotating the references of one category
  (section 4.7); a reference that resolves to null is skipped.
\<close>

definition fragments :: "(string \<rightharpoonup> string) \<Rightarrow> string list \<Rightarrow> string list" where
  "fragments bundle refs =
     concat (map (\<lambda>ref. case fst (processLuaReference ref bundle) of
                          None \<Rightarrow> []
                        | Some text \<Rightarrow> [annotate text ref]) refs)"

text \<open>
  Modelled from the spec: the command of a slot (section 4.6),
  \<^verbatim>\<open>!bset <category><slot-index> <encoded-payload>\<close>, the payload being the fragments
  joined by line feeds, and the test whether it is within the limit.
\<close>

definition slot_command :: "build_env \<Rightarrow> string \<Rightarrow> string \<Rightarrow> string list \<Rightarrow> string" where
  "slot_command env category index slot =
     ''!bset '' @ category @ index @ '' '' @ encode env (join [CHR 0x0A] slot)"

definition fits :: "build_env \<Rightarrow> string \<Rightarrow> string \<Rightarrow> string list \<Rightarrow> bool" where
  "fits env category index slot =
     (length (slot_command env category index slot) \<le> MAX_COMMAND_LENGTH env)"

text \<open>
  Modelled from the spec: splitting the fragments into contiguous groups by arrival
  (section 4.6). \<open>current\<close> is the group of slot \<open>i\<close> so far; a fragment joins it when
  the command still fits, else it opens slot \<open>i + 1\<close>; a fragment that does not fit
  in a slot of its own is an error.
\<close>

function split_groups ::
    "build_env \<Rightarrow> string \<Rightarrow> nat \<Rightarrow> string list \<Rightarrow> string list \<Rightarrow> build_error + string list list" where
  "split_groups env category i current [] = Inr (if current = [] then [] else [current])"
| "split_groups env category i current (f # fs) =
     (if fits env category (digits_of i) (current @ [f]) then
        split_groups env category i (current @ [f]) fs
      else if current = [] then Inl (FragmentTooLarge category f)
      else
        (case split_groups env category (Suc i) [] (f # fs) of
           Inl e \<Rightarrow> Inl e
         | Inr groups \<Rightarrow> Inr (current # groups)))"
  by pat_completeness auto
termination
  by (relation "measure (\<lambda>(env, category, i, current, fs).
        2 * length fs + (if current = [] then 0 else 1))") auto

text \<open>
  Modelled from the spec: the packing engine (section 4.6). One slot without an index
  when everything fits in it; else the groups, numbered from 0, and an error when
  there are more of them than \<^verbatim>\<open>MAX_SLOTS_PER_TYPE\<close>.
\<close>

definition pack :: "build_env \<Rightarrow> string \<Rightarrow> string list \<Rightarrow> build_error + string list" where
  "pack env category annotatedFragments =
     (if fits env category [] annotatedFragments then
        Inr [slot_command env category [] annotatedFragments]
      else
        case split_groups env category 0 [] annotatedFragments of
          Inl e \<Rightarrow> Inl e
        | Inr groups \<Rightarrow>
            if MAX_SLOTS_PER_TYPE env < length groups then
              Inl (TooManySlots category (length groups))
            else
              Inr (map (\<lambda>p. slot_command env category (digits_of (fst p)) (snd p))
                     (enumerate 0 groups)))"

text \<open>
  Modelled from the spec: grouping the commands into sections (section 4.7). A command
  joins the section, after a line feed, when the section stays within the limit, else
  it starts the next section.
\<close>

fun group_sections :: "nat \<Rightarrow> string \<Rightarrow> string list \<Rightarrow> string list" where
  "group_sections limit section [] = [section]"
| "group_sections limit section (c # cs) =
     (if length (section @ [CHR 0x0A] @ c) \<le> limit then
        group_sections limit (section @ [CHR 0x0A] @ c) cs
      else section # group_sections limit c cs)"

definition sections_of :: "nat \<Rightarrow> string list \<Rightarrow> string list" where
  "sections_of limit commands =
     (case commands of [] \<Rightarrow> [] | c # cs \<Rightarrow> group_sections limit c cs)"

text \<open>
  Modelled from the spec: the section builder (section 4.7). Literal commands, then
  the slots of \<^verbatim>\<open>tweakdefs\<close>, then those of \<^verbatim>\<open>tweakunits\<close>; a packing error fails the
  build.
\<close>

definition buildLobbySections ::
    "build_env \<Rightarrow> (string \<times> string) list \<Rightarrow> (string \<rightharpoonup> string) \<Rightarrow> build_error + string list" where
  "buildLobbySections env config bundle =
     (case mapToTweaks env config of
        (commands, tweakdefRefs, tweakunitRefs) \<Rightarrow>
          (case pack env ''tweakdefs'' (fragments bundle tweakdefRefs) of
             Inl e \<Rightarrow> Inl e
           | Inr defs \<Rightarrow>
               (case pack env ''tweakunits'' (fragments bundle tweakunitRefs) of
                  Inl e \<Rightarrow> Inl e
                | Inr units \<Rightarrow>
                    Inr (sections_of (MAX_COMMAND_LENGTH env) (commands @ defs @ units)))))"

subsection \<open>Reading the references back, as the test of the command builder does\<close>










subsection \<open>An encoder\<close>






subsection \<open>Small builds\<close>






section \<open>Evaluating the definitions on literals\<close>

lemma floor_rat_numeral: "\<lfloor>numeral a / numeral b :: rat\<rfloor> = numeral a div numeral b"
  using floor_divide_of_int_eq [of "numeral a" "numeral b", where ?'a = rat] by simp

lemma ceiling_rat_numeral: "\<lceil>numeral a / numeral b :: rat\<rceil> = - (- numeral a div numeral b)"
  using ceiling_divide_eq_div [of "numeral a" "numeral b", where ?'a = rat] by simp

lemma floor_rat_one_numeral: "\<lfloor>1 / numeral b :: rat\<rfloor> = 1 div numeral b"
  using floor_divide_of_int_eq [of 1 "numeral b", where ?'a = rat] by simp

lemma ceiling_rat_one_numeral: "\<lceil>1 / numeral b :: rat\<rceil> = - (- 1 div numeral b)"
  using ceiling_divide_eq_div [of 1 "numeral b", where ?'a = rat] by simp

lemma ndigits_0: "ndigits b 0 = 0"
  by (simp add: ndigits.simps)

lemma ndigits_step: "n \<noteq> 0 \<Longrightarrow> 2 \<le> b \<Longrightarrow> ndigits b n = Suc (ndigits b (n div b))"
  by (subst ndigits.simps) simp

lemmas number_eval = to_number_def round_binary64_def floor_log_def ndigits_0 ndigits_step
  pow2_def pow10_def round_half_even_def Let_def
  floor_rat_numeral ceiling_rat_numeral floor_rat_one_numeral ceiling_rat_one_numeral

lemmas char_eval = is_space_def is_digit_def is_word_def safe_char_def is_paren_def

lemmas toString_eval = toString_def shortest.simps candidates_def distance_def
  format_digits_def digits_of.simps

lemmas parseFloat_eval = parseFloat_def digits_value_def

lemmas object_eval = has_property_def get_property_text_def set_property_def
  object_prototype_properties_def object_keys_def is_array_index_def

lemmas parse_eval = parseReference_def match_reference_def parse_pair_def

lemma parseFloat_examples:
  "parseFloat ''0.75'' = Finite False (3 / 4)"
  "parseFloat ''1.5'' = Finite False (3 / 2)"
  "parseFloat ''2'' = Finite False 2"
  "parseFloat ''3'' = Finite False 3"
  "parseFloat ''3 + 1'' = Finite False 3"
  "parseFloat ''2 + 3'' = Finite False 2"
  "parseFloat ''4'' = Finite False 4"
  by (simp_all add: parseFloat_eval char_eval number_eval)

lemma trim_examples:
  "trim ''0.75 '' = ''0.75''" "trim '' 1.5'' = ''1.5''"
  "trim ''2 '' = ''2''" "trim '' 3'' = ''3''"
  "trim '' 3 + 1'' = ''3 + 1''" "trim ''2 + 3 '' = ''2 + 3''" "trim '' 4'' = ''4''"
  "trim ''2 * 3 + 1'' = ''2 * 3 + 1''" "trim ''2 + 3 * 4'' = ''2 + 3 * 4''"
  by (simp_all add: trim_def char_eval)

lemma toString_examples:
  "toString (Finite False (1 / 2)) = ''0.5''"
  "toString (Finite False 6) = ''6''"
  "toString (Finite False 8) = ''8''"
  by (simp_all add: toString_eval number_eval)

section \<open>Trimming and splitting\<close>

lemma dropWhile_stop: "\<not> P y \<Longrightarrow> dropWhile P (xs @ y # ys) = dropWhile P xs @ y # ys"
  by (induction xs) auto

lemma takeWhile_until: "c \<notin> set xs \<Longrightarrow> takeWhile (\<lambda>x. x \<noteq> c) (xs @ c # ys) = xs"
  by (induction xs) auto

lemma dropWhile_until: "c \<notin> set xs \<Longrightarrow> dropWhile (\<lambda>x. x \<noteq> c) (xs @ c # ys) = c # ys"
  by (induction xs) auto

lemma notin_dropWhile: "c \<notin> set xs \<Longrightarrow> c \<notin> set (dropWhile P xs)"
  by (meson set_dropWhileD)

lemma trim_around:
  assumes "\<not> is_space c"
  shows "trim (a @ c # b) = dropWhile is_space a @ c # rev (dropWhile is_space (rev b))"
  using assms by (simp add: trim_def dropWhile_stop)

lemma trim_left: "trim (dropWhile is_space a) = trim a"
  by (simp add: trim_def)

lemma rtrim_Cons:
  "\<not> is_space y \<Longrightarrow>
     rev (dropWhile is_space (rev (xs @ y # ys))) = xs @ y # rev (dropWhile is_space (rev ys))"
  by (simp add: dropWhile_stop)

lemma trim_right: "trim (rev (dropWhile is_space (rev b))) = trim b"
proof (cases "\<forall>x\<in>set b. is_space x")
  case True
  then have h: "dropWhile is_space b = []" "dropWhile is_space (rev b) = []"
    by simp_all
  show ?thesis unfolding trim_def h by simp
next
  case False
  then obtain xs y ys where b: "b = xs @ y # ys"
    and xs: "\<forall>x\<in>set xs. is_space x" and y: "\<not> is_space y"
    using split_list_first_prop [of b "\<lambda>x. \<not> is_space x"] by auto
  have l: "dropWhile is_space (xs @ zs) = dropWhile is_space zs" for zs
    using xs by simp
  show ?thesis
    unfolding trim_def b rtrim_Cons [OF y] l
    using y by (simp add: dropWhile_stop)
qed

lemma set_trim: "set (trim s) \<subseteq> set s"
proof -
  have "set (dropWhile is_space (rev (dropWhile is_space s))) \<subseteq> set (rev (dropWhile is_space s))"
    by (meson set_dropWhileD subsetI)
  moreover have "set (dropWhile is_space s) \<subseteq> set s"
    by (meson set_dropWhileD subsetI)
  ultimately show ?thesis
    by (auto simp: trim_def)
qed

lemma split_no_sep: "sep \<notin> set s \<Longrightarrow> split sep s = [s]"
  by (induction s) auto

lemma split_at_sep: "sep \<notin> set a \<Longrightarrow> split sep (a @ sep # b) = a # split sep b"
  by (induction a) auto

lemma split_unfold:
  "split sep s = takeWhile (\<lambda>c. c \<noteq> sep) s #
     (case dropWhile (\<lambda>c. c \<noteq> sep) s of [] \<Rightarrow> [] | e # r \<Rightarrow> split sep r)"
  by (induction s) (auto split: list.splits)

lemma operator_facts:
  "\<not> is_space CHR ''/''" "\<not> is_space CHR ''*''" "safe_char CHR ''/''" "safe_char CHR ''*''"
  by (simp_all add: is_space_def safe_char_def)

lemma operands:
  assumes "c \<notin> set a" "c \<notin> set b" "\<not> is_space c"
  shows "c \<in> set (trim (a @ c # b))"
    and "split c (trim (a @ c # b)) = [dropWhile is_space a, rev (dropWhile is_space (rev b))]"
    and "d \<notin> set a \<Longrightarrow> d \<notin> set b \<Longrightarrow> d \<noteq> c \<Longrightarrow> d \<notin> set (trim (a @ c # b))"
proof -
  let ?l = "dropWhile is_space a" and ?r = "rev (dropWhile is_space (rev b))"
  have t: "trim (a @ c # b) = ?l @ c # ?r"
    using assms(3) by (rule trim_around)
  have l: "c \<notin> set ?l" using assms(1) by (rule notin_dropWhile)
  have r: "c \<notin> set ?r" using assms(2) notin_dropWhile [of c "rev b" is_space] by simp
  show "c \<in> set (trim (a @ c # b))" by (simp add: t)
  show "split c (trim (a @ c # b)) = [?l, ?r]"
    by (simp add: t split_at_sep [OF l] split_no_sep [OF r])
  show "d \<notin> set (trim (a @ c # b))" if "d \<notin> set a" "d \<notin> set b" "d \<noteq> c"
    using that notin_dropWhile [of d a is_space] notin_dropWhile [of d "rev b" is_space]
    by (simp add: t)
qed

section \<open>The expression evaluator\<close>

text \<open>
  Claim C8. Division splits the expression at its \<^verbatim>\<open>/\<close> into two operands, reads each
  as a number and returns the quotient as a decimal string, and multiplication does
  the same with \<^verbatim>\<open>*\<close> and the product: for operands \<open>a\<close> and \<open>b\<close> made of allowed
  characters that hold no \<^verbatim>\<open>/\<close> and that \<^verbatim>\<open>parseFloat\<close> reads as numbers, the
  evaluator returns the string of the quotient for \<open>a / b\<close> and, when they hold no
  \<^verbatim>\<open>*\<close> either, the string of the product for \<open>a * b\<close>, without a warning. The
  instances \<^verbatim>\<open>0.75 / 1.5\<close> and \<^verbatim>\<open>2 * 3\<close> give \<^verbatim>\<open>0.5\<close> and \<^verbatim>\<open>6\<close>.
\<close>

theorem evaluateExpression_quotient_product:
  assumes "list_all safe_char a" and "list_all safe_char b"
    and "\<not> isNaN (parseFloat (trim a))" and "\<not> isNaN (parseFloat (trim b))"
    and "CHR ''/'' \<notin> set a" and "CHR ''/'' \<notin> set b"
  shows "evaluateExpression (a @ ''/'' @ b) =
           (toString (num_div (parseFloat (trim a)) (parseFloat (trim b))), []) \<and>
         (CHR ''*'' \<notin> set a \<and> CHR ''*'' \<notin> set b \<longrightarrow>
            evaluateExpression (a @ ''*'' @ b) =
              (toString (num_mul (parseFloat (trim a)) (parseFloat (trim b))), []))"
proof (intro conjI impI)
  show "evaluateExpression (a @ ''/'' @ b) =
          (toString (num_div (parseFloat (trim a)) (parseFloat (trim b))), [])"
    using assms(1-4)
    by (simp add: evaluateExpression_def Let_def operator_facts trim_left trim_right
        operands(1,2) [OF assms(5) assms(6) operator_facts(1)])
next
  assume "CHR ''*'' \<notin> set a \<and> CHR ''*'' \<notin> set b"
  then have s: "CHR ''*'' \<notin> set a" "CHR ''*'' \<notin> set b"
    by simp_all
  have "CHR ''/'' \<notin> set (trim (a @ CHR ''*'' # b))"
    using operands(3) [OF s operator_facts(2) assms(5) assms(6)] by simp
  then show "evaluateExpression (a @ ''*'' @ b) =
          (toString (num_mul (parseFloat (trim a)) (parseFloat (trim b))), [])"
    using assms(1-4)
    by (simp add: evaluateExpression_def Let_def operator_facts trim_left trim_right
        operands(1,2) [OF s operator_facts(2)])
qed

text \<open>The two examples of the claim, from the theorem.\<close>

theorem evaluateExpression_quotient_product_witness:
  "evaluateExpression ''0.75 / 1.5'' = (''0.5'', []) \<and>
   evaluateExpression ''2 * 3'' = (''6'', [])"
  using evaluateExpression_quotient_product [of "''0.75 ''" "'' 1.5''"]
    evaluateExpression_quotient_product [of "''2 ''" "'' 3''"]
  by (simp add: char_eval trim_examples parseFloat_examples toString_examples isNaN_def
      number_eval)

text \<open>
  Claim C1. The claim has every expression that is not one operator between two
  numeric operands returned unchanged. The evaluator reads each operand with
  \<^verbatim>\<open>parseFloat\<close>, which takes a numeric prefix and ignores what follows it, so an
  operand such as \<^verbatim>\<open>3 + 1\<close> counts as the number 3: \<^verbatim>\<open>2 * 3 + 1\<close>, the example
  the function's own documentation gives with the result 7, evaluates to \<^verbatim>\<open>6\<close>, and
  \<^verbatim>\<open>2 + 3 * 4\<close> to \<^verbatim>\<open>8\<close>; neither is returned unchanged. Through the resolver, the
  template \<^verbatim>\<open>y = (2 * $X$ + 1)\<close> with \<^verbatim>\<open>X=3\<close> becomes \<^verbatim>\<open>y = (6)\<close>.
\<close>

theorem evaluateExpression_ignores_operand_tail:
  "evaluateExpression ''2 * 3 + 1'' = (''6'', []) \<and>
   evaluateExpression ''2 + 3 * 4'' = (''8'', []) \<and>
   processLuaReference ''~t.lua{X=3}'' [''t.lua'' \<mapsto> ''y = (2 * $X$ + 1)''] =
     (Some ''y = (6)'', [])"
proof -
  have e: "evaluateExpression ''2 * 3 + 1'' = (''6'', [])"
    "evaluateExpression ''2 + 3 * 4'' = (''8'', [])"
    by (simp_all add: evaluateExpression_def char_eval trim_examples parseFloat_examples
        toString_examples isNaN_def number_eval)
  have "interpolateTemplate ''y = (2 * $X$ + 1)'' [(''X'', ''3'')] = (''y = (6)'', [])"
    by (simp add: interpolateTemplate_def first_pass.simps second_pass.simps e(1) char_eval
        object_eval Let_def)
  then have "processLuaReference ''~t.lua{X=3}'' [''t.lua'' \<mapsto> ''y = (2 * $X$ + 1)''] =
      (Some ''y = (6)'', [])"
    by (simp add: processLuaReference_def parse_eval object_eval trim_def char_eval)
  with e show ?thesis by simp
qed

text \<open>
  What does hold of the other shapes: an expression of allowed characters without
  \<^verbatim>\<open>/\<close> and \<^verbatim>\<open>*\<close> is returned unchanged.
\<close>

lemma evaluateExpression_no_operator:
  assumes "CHR ''/'' \<notin> set expression" and "CHR ''*'' \<notin> set expression"
  shows "fst (evaluateExpression expression) = expression"
proof -
  have "CHR ''/'' \<notin> set (trim expression)" and "CHR ''*'' \<notin> set (trim expression)"
    using assms set_trim [of expression] by auto
  then show ?thesis
    by (simp add: evaluateExpression_def Let_def)
qed

text \<open>
  Division by zero is not an error: the quotient is an infinity or NaN, and its name
  is returned. A sign belongs to its operand.
\<close>

lemma evaluateExpression_more_examples:
  "evaluateExpression ''1 / 0'' = (''Infinity'', [])"
  "evaluateExpression ''0 / 0'' = (''NaN'', [])"
  "evaluateExpression ''-2 * 3'' = (''-6'', [])"
  "evaluateExpression ''1 / 8'' = (''0.125'', [])"
  by (simp_all add: evaluateExpression_def char_eval trim_def parseFloat_eval toString_eval
      isNaN_def number_eval)

text \<open>
  Claim C5. An expression that holds a character other than a digit, white space
  and \<^verbatim>\<open>+ - * / ( ) .\<close> is returned unchanged, with the warning for an unsafe
  expression and nothing evaluated; \<^verbatim>\<open>malicious()\<close> is such an expression.
\<close>

theorem evaluateExpression_unsafe_unchanged:
  assumes "c \<in> set expression" and "\<not> safe_char c"
  shows "evaluateExpression expression =
           (expression, [''Unsafe expression detected, skipping evaluation: '' @ expression])"
  using assms by (auto simp: evaluateExpression_def list_all_iff)

theorem evaluateExpression_unsafe_unchanged_witness:
  "CHR ''m'' \<in> set ''malicious()'' \<and> \<not> safe_char CHR ''m'' \<and>
   evaluateExpression ''malicious()'' =
     (''malicious()'', [''Unsafe expression detected, skipping evaluation: malicious()''])"
  using evaluateExpression_unsafe_unchanged [of "CHR ''m''" "''malicious()''"]
  by (simp add: char_eval)

section \<open>The interpolator\<close>

text \<open>
  Claim C4. The claim has a placeholder whose name is not a key of the variable map
  left as it stands. The first pass asks \<^verbatim>\<open>varName in variables\<close>, which also holds
  for the names every object inherits, so \<^verbatim>\<open>$toString$\<close> is replaced by the text of
  the inherited function although \<^verbatim>\<open>toString\<close> is no key of \<^verbatim>\<open>{X: "5"}\<close>, and no
  warning for an undefined variable is written; so it is through the resolver, for
  the reference \<^verbatim>\<open>~t.lua{X=5}\<close>.
\<close>

theorem interpolateTemplate_inherited_name:
  "interpolateTemplate ''a=$toString$'' [(''X'', ''5'')] =
     (''a=function toString() { [native code] }'',
      [''Template variables provided but not used: X'']) \<and>
   processLuaReference ''~t.lua{X=5}'' [''t.lua'' \<mapsto> ''a=$toString$''] =
     (Some ''a=function toString() { [native code] }'',
      [''Template variables provided but not used: X''])"
proof -
  have i: "interpolateTemplate ''a=$toString$'' [(''X'', ''5'')] =
     (''a=function toString() { [native code] }'',
      [''Template variables provided but not used: X''])"
    by (simp add: interpolateTemplate_def first_pass.simps second_pass.simps char_eval
        object_eval Let_def)
  then have "processLuaReference ''~t.lua{X=5}'' [''t.lua'' \<mapsto> ''a=$toString$''] =
     (Some ''a=function toString() { [native code] }'',
      [''Template variables provided but not used: X''])"
    by (simp add: processLuaReference_def parse_eval object_eval trim_def char_eval)
  with i show ?thesis by simp
qed

text \<open>The two examples of the claim hold.\<close>

lemma interpolateTemplate_examples:
  "interpolateTemplate ''a=$X$'' [(''X'', ''5'')] = (''a=5'', [])"
  "interpolateTemplate ''a=$Y$'' [(''X'', ''5'')] =
     (''a=$Y$'',
      [''Undefined template variable: Y (placeholder: $Y$)'',
       ''Template variables provided but not used: X''])"
  by (simp_all add: interpolateTemplate_def first_pass.simps second_pass.simps char_eval
      object_eval Let_def)

text \<open>
  What the first pass does to every template whose placeholders do not bear a name
  that objects inherit: the tokens of the template give the template back, and the
  first pass is the substitution of each token.
\<close>

lemma placeholder_at_source:
  assumes "placeholder_at c rest"
  shows "c # rest = ''$'' @ takeWhile is_word rest @ ''$'' @ tl (dropWhile is_word rest)"
proof -
  from assms have "dropWhile is_word rest = CHR ''$'' # tl (dropWhile is_word rest)"
    by (cases "dropWhile is_word rest") (auto simp: placeholder_at_def)
  then have "rest = takeWhile is_word rest @ CHR ''$'' # tl (dropWhile is_word rest)"
    using takeWhile_dropWhile_id [of is_word rest] by simp
  with assms show ?thesis
    by (simp add: placeholder_at_def)
qed

lemma tokens_Cons:
  "tokens (c # rest) =
     (if placeholder_at c rest
      then Placeholder (takeWhile is_word rest) # tokens (tl (dropWhile is_word rest))
      else Text c # tokens rest)"
  by (subst tokens.simps, unfold Let_def placeholder_at_def [symmetric]) simp

lemma first_pass_Cons:
  "fst (first_pass vars (c # rest)) =
     (if placeholder_at c rest
      then (if has_property (takeWhile is_word rest) vars
            then get_property_text (takeWhile is_word rest) vars
            else ''$'' @ takeWhile is_word rest @ ''$'') @
           fst (first_pass vars (tl (dropWhile is_word rest)))
      else c # fst (first_pass vars rest))"
  by (subst first_pass.simps, unfold Let_def placeholder_at_def [symmetric])
    (simp split: prod.splits)

lemma tokens_source: "concat (map source_of (tokens s)) = s"
proof (induction s rule: tokens.induct)
  case 1
  show ?case by (simp add: tokens.simps)
next
  case (2 c rest)
  show ?case
  proof (cases "placeholder_at c rest")
    case True
    then have "concat (map source_of (tokens (tl (dropWhile is_word rest)))) =
                 tl (dropWhile is_word rest)"
      using "2.IH"(1) [OF refl refl] by (simp add: placeholder_at_def)
    moreover have "source_of (Placeholder (takeWhile is_word rest)) =
        ''$'' @ takeWhile is_word rest @ ''$''"
      by (simp add: source_of_def)
    ultimately have "concat (map source_of (tokens (c # rest))) =
        ''$'' @ takeWhile is_word rest @ ''$'' @ tl (dropWhile is_word rest)"
      using True unfolding tokens_Cons by simp
    then show ?thesis
      using placeholder_at_source [OF True] by simp
  next
    case False
    then have "concat (map source_of (tokens rest)) = rest"
      using "2.IH"(2) [OF refl refl] by (simp add: placeholder_at_def)
    moreover have "source_of (Text c) = [c]"
      by (simp add: source_of_def)
    ultimately show ?thesis
      using False unfolding tokens_Cons by simp
  qed
qed

lemma substitute_own_name:
  assumes "name \<notin> set object_prototype_properties"
  shows "(if has_property name vars then get_property_text name vars else ''$'' @ name @ ''$'') =
           substitute vars (Placeholder name)"
proof (cases "map_of vars name")
  case None
  then have "name \<notin> fst ` set vars"
    by (simp add: map_of_eq_None_iff)
  with None assms show ?thesis
    by (simp add: has_property_def substitute_def)
next
  case (Some v)
  then have "name \<in> fst ` set vars"
    using map_of_SomeD [OF Some] by force
  with Some show ?thesis
    by (simp add: has_property_def get_property_text_def substitute_def)
qed

lemma first_pass_tokens:
  assumes "\<forall>name. Placeholder name \<in> set (tokens s) \<longrightarrow> name \<notin> set object_prototype_properties"
  shows "fst (first_pass vars s) = concat (map (substitute vars) (tokens s))"
  using assms
proof (induction s rule: tokens.induct)
  case 1
  show ?case by (simp add: first_pass.simps tokens.simps)
next
  case (2 c rest)
  show ?case
  proof (cases "placeholder_at c rest")
    case True
    with "2.prems" have own: "takeWhile is_word rest \<notin> set object_prototype_properties"
      and rec: "\<forall>name. Placeholder name \<in> set (tokens (tl (dropWhile is_word rest))) \<longrightarrow>
                  name \<notin> set object_prototype_properties"
      unfolding tokens_Cons by simp_all
    have "fst (first_pass vars (tl (dropWhile is_word rest))) =
            concat (map (substitute vars) (tokens (tl (dropWhile is_word rest))))"
      using "2.IH"(1) [OF refl refl _ rec] True by (simp add: placeholder_at_def)
    with True show ?thesis
      unfolding tokens_Cons first_pass_Cons by (simp add: substitute_own_name [OF own])
  next
    case False
    with "2.prems" have rec: "\<forall>name. Placeholder name \<in> set (tokens rest) \<longrightarrow>
        name \<notin> set object_prototype_properties"
      unfolding tokens_Cons by simp
    have "fst (first_pass vars rest) = concat (map (substitute vars) (tokens rest))"
      using "2.IH"(2) [OF refl refl _ rec] False by (simp add: placeholder_at_def)
    moreover have "substitute vars (Text c) = [c]"
      by (simp add: substitute_def)
    ultimately show ?thesis
      using False unfolding tokens_Cons first_pass_Cons by simp
  qed
qed

section \<open>The reference resolver\<close>

text \<open>
  Claim C2. The claim has the resolver return null exactly when the token does not
  parse or its path is absent from the bundle, and the text of the bundle unchanged
  when there are no variables. For a path that the bundle maps to the empty string
  the token parses and the path is present, yet the result is null, with the
  warning that the file was not found.
\<close>

theorem processLuaReference_empty_file:
  "processLuaReference ''~lua/empty.lua'' [''lua/empty.lua'' \<mapsto> ''''] =
     (None, [''Lua file not found in bundle: lua/empty.lua (from reference: ~lua/empty.lua)''])"
  by (simp add: processLuaReference_def parse_eval)

text \<open>When the resolver returns null, in full.\<close>

lemma processLuaReference_None_iff:
  "fst (processLuaReference ref luaFileMap) = None \<longleftrightarrow>
     (case fst (parseReference ref) of
        None \<Rightarrow> True
      | Some parsed \<Rightarrow>
          luaFileMap (filePath parsed) = None \<or> luaFileMap (filePath parsed) = Some '''')"
  by (auto simp: processLuaReference_def Let_def split: prod.splits option.splits)

lemma processLuaReference_no_variables:
  assumes "parseReference ref = (Some parsed, warnings)"
    and "luaFileMap (filePath parsed) = Some template" and "template \<noteq> []"
    and "object_keys (variables parsed) = []"
  shows "processLuaReference ref luaFileMap = (Some template, warnings)"
  using assms by (simp add: processLuaReference_def)

text \<open>
  Claim C10. A bundle that maps the path of a reference to the empty string makes
  the resolver return null, not the empty text: whenever the token parses and the
  bundle holds the empty string under its path, the result is null.
\<close>

theorem processLuaReference_empty_source_is_null:
  assumes "fst (parseReference ref) = Some parsed"
    and "luaFileMap (filePath parsed) = Some ''''"
  shows "fst (processLuaReference ref luaFileMap) = None"
  using assms by (cases "parseReference ref") (simp add: processLuaReference_def Let_def)

theorem processLuaReference_empty_source_is_null_witness:
  "fst (parseReference ''~lua/a.lua'') = Some \<lparr>filePath = ''lua/a.lua'', variables = []\<rparr> \<and>
   [''lua/a.lua'' \<mapsto> ''''] ''lua/a.lua'' = Some '''' \<and>
   fst (processLuaReference ''~lua/a.lua'' [''lua/a.lua'' \<mapsto> '''']) = None"
  using processLuaReference_empty_source_is_null
    [of "''~lua/a.lua''" "\<lparr>filePath = ''lua/a.lua'', variables = []\<rparr>" "[''lua/a.lua'' \<mapsto> '''']"]
  by (simp add: parse_eval)

section \<open>The reference parser\<close>

lemma parse_pair_recorded:
  "parse_pair ref acc p =
     (if recorded_pair p then (set_property (pair_key p) (the (pair_value p)) (fst acc), snd acc)
      else (fst acc, snd acc @ [pair_warning ref p]))"
proof (cases "CHR ''='' \<in> set p")
  case False
  then have h: "dropWhile (\<lambda>c. c \<noteq> CHR ''='') p = []"
    by auto
  have "pair_value p = None"
    unfolding pair_value_def h by simp
  then show ?thesis
    using False by (simp add: parse_pair_def split_no_sep recorded_pair_def)
next
  case True
  then obtain a r where p: "p = a @ CHR ''='' # r" and a: "CHR ''='' \<notin> set a"
    using split_list_first [of "CHR ''=''" p] by auto
  obtain others where r: "split CHR ''='' r = takeWhile (\<lambda>c. c \<noteq> CHR ''='') r # others"
    using split_unfold [of "CHR ''=''" r] by blast
  have "pair_key p = trim a"
    and "pair_value p = Some (trim (takeWhile (\<lambda>c. c \<noteq> CHR ''='') r))"
    using a by (simp_all add: pair_key_def pair_value_def p takeWhile_until dropWhile_until)
  then show ?thesis
    by (simp add: parse_pair_def recorded_pair_def p split_at_sep [OF a] r)
qed

lemma foldl_parse_pair:
  "foldl (parse_pair ref) acc ps =
     (foldl record_step (fst acc) ps,
      snd acc @ map (pair_warning ref) (filter (\<lambda>p. \<not> recorded_pair p) ps))"
  by (induction ps arbitrary: acc) (simp_all add: parse_pair_recorded record_step_def)

lemma recorded_value_snoc:
  "recorded_value key (ps @ [p]) =
     (if recorded_pair p \<and> pair_key p = key then pair_value p else recorded_value key ps)"
  by (simp add: recorded_value_def Let_def)

lemma map_of_record_steps:
  assumes "key \<noteq> ''__proto__''"
  shows "map_of (foldl record_step vars ps) key =
           (case recorded_value key ps of None \<Rightarrow> map_of vars key | Some v \<Rightarrow> Some v)"
proof (induction ps rule: rev_induct)
  case Nil
  show ?case by (simp add: recorded_value_def)
next
  case (snoc p ps)
  show ?case
  proof (cases "recorded_pair p")
    case False
    with snoc show ?thesis by (simp add: recorded_value_snoc record_step_def)
  next
    case True
    then obtain v where v: "pair_value p = Some v"
      by (auto simp: recorded_pair_def)
    show ?thesis
      using snoc True v assms
      by (auto simp: recorded_value_snoc record_step_def set_property_def update_conv')
  qed
qed

lemma match_reference_variables:
  assumes "path \<noteq> []" "CHR ''{'' \<notin> set path" "vs \<noteq> []" "CHR ''}'' \<notin> set vs"
  shows "match_reference (''~'' @ path @ ''{'' @ vs @ ''}'') = Some (path, Some vs)"
  using assms takeWhile_until [of "CHR ''}''" vs "[]"] dropWhile_until [of "CHR ''}''" vs "[]"]
  by (simp add: match_reference_def takeWhile_until dropWhile_until Let_def)

text \<open>The tokens with a variable list that the regular expression accepts are exactly these.\<close>

lemma match_reference_Some_iff:
  "match_reference ref = Some (path, Some vs) \<longleftrightarrow>
     ref = ''~'' @ path @ ''{'' @ vs @ ''}'' \<and> path \<noteq> [] \<and> CHR ''{'' \<notin> set path \<and>
     vs \<noteq> [] \<and> CHR ''}'' \<notin> set vs"
proof
  assume "ref = ''~'' @ path @ ''{'' @ vs @ ''}'' \<and> path \<noteq> [] \<and> CHR ''{'' \<notin> set path \<and>
     vs \<noteq> [] \<and> CHR ''}'' \<notin> set vs"
  then show "match_reference ref = Some (path, Some vs)"
    using match_reference_variables [of path vs] by simp
next
  assume m: "match_reference ref = Some (path, Some vs)"
  then obtain rest where ref: "ref = CHR ''~'' # rest"
    by (cases ref) (auto simp: match_reference_def Let_def split: if_splits)
  let ?tail = "dropWhile (\<lambda>x. x \<noteq> CHR ''{'') rest"
  from m ref have path: "path = takeWhile (\<lambda>x. x \<noteq> CHR ''{'') rest" "path \<noteq> []"
    and tail: "?tail \<noteq> []"
    and vs: "vs = takeWhile (\<lambda>x. x \<noteq> CHR ''}'') (tl ?tail)" "vs \<noteq> []"
    and after: "dropWhile (\<lambda>x. x \<noteq> CHR ''}'') (tl ?tail) = ''}''"
    by (auto simp: match_reference_def Let_def split: if_splits)
  from tail have "hd ?tail = CHR ''{''"
    using hd_dropWhile [of "\<lambda>x. x \<noteq> CHR ''{''" rest] by simp
  with tail have t: "?tail = CHR ''{'' # tl ?tail"
    by (cases ?tail) auto
  have "tl ?tail = vs @ ''}''"
    using takeWhile_dropWhile_id [of "\<lambda>x. x \<noteq> CHR ''}''" "tl ?tail"] vs(1) after by simp
  with t have "rest = path @ ''{'' @ vs @ ''}''"
    using takeWhile_dropWhile_id [of "\<lambda>x. x \<noteq> CHR ''{''" rest] path(1) by simp
  moreover have "CHR ''{'' \<notin> set path"
    unfolding path(1) by (auto dest: set_takeWhileD)
  moreover have "CHR ''}'' \<notin> set vs"
    unfolding vs(1) by (auto dest: set_takeWhileD)
  ultimately show "ref = ''~'' @ path @ ''{'' @ vs @ ''}'' \<and> path \<noteq> [] \<and> CHR ''{'' \<notin> set path \<and>
     vs \<noteq> [] \<and> CHR ''}'' \<notin> set vs"
    using ref path(2) vs(2) by simp
qed

text \<open>
  Claim C3, as amended. For a token \<^verbatim>\<open>~path{pairs}\<close> (the path not empty and without
  an opening brace, the pairs not empty and without a closing brace) the parser
  succeeds whatever the pairs are. It writes one warning for each comma-separated
  pair whose trimmed key is empty or that holds no \<^verbatim>\<open>=\<close>, in order, and skips these
  pairs. For any key but \<^verbatim>\<open>__proto__\<close> the variables hold the value of the last
  recorded pair with that key, where the value of a pair is the trimmed text between
  its first \<^verbatim>\<open>=\<close> and its second one, or the end of the pair when there is no second.
\<close>

theorem parseReference_records_pairs:
  assumes "path \<noteq> []" and "CHR ''{'' \<notin> set path" and "vs \<noteq> []" and "CHR ''}'' \<notin> set vs"
  shows "\<exists>vars.
    parseReference (''~'' @ path @ ''{'' @ vs @ ''}'') =
      (Some \<lparr>filePath = path, variables = vars\<rparr>,
       map (pair_warning (''~'' @ path @ ''{'' @ vs @ ''}''))
         (filter (\<lambda>p. \<not> recorded_pair p) (split CHR '','' vs))) \<and>
    (\<forall>key. key \<noteq> ''__proto__'' \<longrightarrow> map_of vars key = recorded_value key (split CHR '','' vs))"
proof -
  have "map_of (foldl record_step [] (split CHR '','' vs)) key =
          recorded_value key (split CHR '','' vs)"
    if "key \<noteq> ''__proto__''" for key
    using map_of_record_steps [OF that, of "[]" "split CHR '','' vs"]
    by (simp split: option.splits)
  then show ?thesis
    using match_reference_variables [OF assms]
    by (simp add: parseReference_def foldl_parse_pair)
qed

text \<open>
  A token with a repeated key, a pair without \<^verbatim>\<open>=\<close> and a pair with an empty key: the
  last value of the key is recorded and the two other pairs are warned about.
\<close>

theorem parseReference_records_pairs_witness:
  "parseReference ''~f{A=1, B ,=3,A = 2 }'' =
      (Some \<lparr>filePath = ''f'', variables = [(''A'', ''2'')]\<rparr>,
       [pair_warning ''~f{A=1, B ,=3,A = 2 }'' '' B '',
        pair_warning ''~f{A=1, B ,=3,A = 2 }'' ''=3'']) \<and>
   recorded_value ''A'' (split CHR '','' ''A=1, B ,=3,A = 2 '') = Some ''2''"
  using parseReference_records_pairs [of "''f''" "''A=1, B ,=3,A = 2 ''"]
  by (simp add: parse_eval pair_warning_def object_eval trim_def char_eval recorded_value_def
      recorded_pair_def pair_key_def pair_value_def)

text \<open>
  The claim as it is written fails: the value recorded for \<^verbatim>\<open>A=1=2\<close> is \<^verbatim>\<open>1\<close>, not
  everything after the first \<^verbatim>\<open>=\<close>, which is \<^verbatim>\<open>1=2\<close>.
\<close>

theorem parseReference_value_stops_at_second_equals:
  "map_of (variables (the (fst (parseReference ''~f{A=1=2}'')))) ''A'' = Some ''1'' \<and>
   value_after_first_equals ''A=1=2'' = Some ''1=2''"
  by (simp add: parse_eval object_eval trim_def char_eval value_after_first_equals_def)

section \<open>Validating a stored configuration\<close>

lemma map_of_copy_properties:
  "map_of (copy_properties target source) key =
     (case map_of (rev source) key of Some v \<Rightarrow> Some v | None \<Rightarrow> map_of target key)"
  unfolding copy_properties_def
  by (induction source arbitrary: target)
    (auto simp: update_conv' map_add_def split: option.splits)

lemma keys_copy_properties:
  "fst ` set (copy_properties target source) = fst ` set target \<union> fst ` set source"
  unfolding copy_properties_def
  by (induction source arbitrary: target) (auto simp: dom_update)

lemma map_of_rev_distinct: "distinct (map fst xs) \<Longrightarrow> map_of (rev xs) = map_of xs"
  by (induction xs)
    (auto simp: map_add_def fun_eq_iff image_iff split: option.splits dest!: map_of_SomeD)

text \<open>
  Claim C9. The result is null exactly when the field \<^verbatim>\<open>configuration\<close> is absent or
  not an object. When it is an object, the result holds a configuration with every
  key of the default configuration, in which a key of the stored configuration has
  its stored value and any other key has its default value.
\<close>

theorem validateStoredConfiguration_merges_defaults:
  assumes "distinct (map fst DEFAULT_CONFIGURATION)"
  shows "(validateStoredConfiguration DEFAULT_CONFIGURATION env stored = None \<longleftrightarrow>
            \<not> is_object (configuration stored)) \<and>
         (\<forall>props. configuration stored = JObject props \<and> distinct (map fst props) \<longrightarrow>
            (\<exists>merged.
               validateStoredConfiguration DEFAULT_CONFIGURATION env stored =
                 Some \<lparr>configuration = JObject merged, gitSha = getCurrentGitSha env\<rparr> \<and>
               fst ` set DEFAULT_CONFIGURATION \<subseteq> fst ` set merged \<and>
               (\<forall>key. map_of merged key =
                  (case map_of props key of
                     Some v \<Rightarrow> Some v
                   | None \<Rightarrow> map_of DEFAULT_CONFIGURATION key))))"
proof (intro conjI allI impI)
  show "validateStoredConfiguration DEFAULT_CONFIGURATION env stored = None \<longleftrightarrow>
          \<not> is_object (configuration stored)"
    by (cases "configuration stored")
      (simp_all add: validateStoredConfiguration_def truthy_def typeof_def is_object_def)
next
  fix props
  assume p: "configuration stored = JObject props \<and> distinct (map fst props)"
  let ?merged = "copy_properties (copy_properties [] DEFAULT_CONFIGURATION) props"
  have v: "validateStoredConfiguration DEFAULT_CONFIGURATION env stored =
             Some \<lparr>configuration = JObject ?merged, gitSha = getCurrentGitSha env\<rparr>"
    using p by (simp add: validateStoredConfiguration_def truthy_def typeof_def own_properties_def)
  have k: "fst ` set DEFAULT_CONFIGURATION \<subseteq> fst ` set ?merged"
    by (simp add: keys_copy_properties)
  have m: "map_of ?merged key =
             (case map_of props key of
                Some v \<Rightarrow> Some v
              | None \<Rightarrow> map_of DEFAULT_CONFIGURATION key)" for key
    using p assms by (simp add: map_of_copy_properties map_of_rev_distinct split: option.splits)
  show "\<exists>merged.
          validateStoredConfiguration DEFAULT_CONFIGURATION env stored =
            Some \<lparr>configuration = JObject merged, gitSha = getCurrentGitSha env\<rparr> \<and>
          fst ` set DEFAULT_CONFIGURATION \<subseteq> fst ` set merged \<and>
          (\<forall>key. map_of merged key =
             (case map_of props key of
                Some v \<Rightarrow> Some v
              | None \<Rightarrow> map_of DEFAULT_CONFIGURATION key))"
    using v k m by blast
qed

text \<open>
  A stored configuration that lacks a key of the defaults is completed, and one whose
  field is null is refused.
\<close>

theorem validateStoredConfiguration_merges_defaults_witness:
  "validateStoredConfiguration
      [(''lobbyName'', JString ''''), (''queenCount'', JNumber (Finite False 8))] None
      \<lparr>configuration = JObject [(''queenCount'', JNumber (Finite False 3))],
       gitSha = ''0a1b2c3''\<rparr> =
    Some \<lparr>configuration =
            JObject [(''lobbyName'', JString ''''), (''queenCount'', JNumber (Finite False 3))],
          gitSha = ''development''\<rparr> \<and>
   validateStoredConfiguration
      [(''lobbyName'', JString ''''), (''queenCount'', JNumber (Finite False 8))] None
      \<lparr>configuration = JNull, gitSha = ''0a1b2c3''\<rparr> = None"
  using validateStoredConfiguration_merges_defaults
      [of "[(''lobbyName'', JString ''''), (''queenCount'', JNumber (Finite False 8))]" None
        "\<lparr>configuration = JObject [(''queenCount'', JNumber (Finite False 3))],
          gitSha = ''0a1b2c3''\<rparr>"]
    validateStoredConfiguration_merges_defaults
      [of "[(''lobbyName'', JString ''''), (''queenCount'', JNumber (Finite False 8))]" None
        "\<lparr>configuration = JNull, gitSha = ''0a1b2c3''\<rparr>"]
  by (simp add: validateStoredConfiguration_def truthy_def typeof_def own_properties_def
      copy_properties_def getCurrentGitSha_def is_object_def)

section \<open>The command builder\<close>

lemma digit_char: "n < 10 \<Longrightarrow> is_digit (''0123456789'' ! n)"
  unfolding is_digit_def by (rule nth_mem) simp

lemma digits_of_digits: "list_all is_digit (digits_of n)"
proof (induction n rule: digits_of.induct)
  case (1 n)
  then show ?case
    by (subst digits_of.simps) (simp add: digit_char)
qed

lemma split_groups_fit:
  assumes "split_groups env category i current fs = Inr groups"
    and "current = [] \<or> fits env category (digits_of i) current"
  shows "\<forall>p \<in> set (enumerate i groups). fits env category (digits_of (fst p)) (snd p)"
  using assms
proof (induction env category i current fs arbitrary: groups rule: split_groups.induct)
  case (1 env category i current)
  then show ?case by (auto split: if_splits)
next
  case (2 env category i current f fs)
  show ?case
  proof (cases "fits env category (digits_of i) (current @ [f])")
    case True
    with 2 show ?thesis by simp
  next
    case False
    with "2.prems" obtain rest where c: "current \<noteq> []"
      and r: "split_groups env category (Suc i) [] (f # fs) = Inr rest"
      and g: "groups = current # rest"
      by (auto split: if_splits sum.splits)
    have "\<forall>p \<in> set (enumerate (Suc i) rest). fits env category (digits_of (fst p)) (snd p)"
      using "2.IH"(2) [OF False c r] by simp
    with c "2.prems"(2) g show ?thesis by simp
  qed
qed

lemma split_groups_concat:
  "split_groups env category i current fs = Inr groups \<Longrightarrow> concat groups = current @ fs"
proof (induction env category i current fs arbitrary: groups rule: split_groups.induct)
  case (1 env category i current)
  then show ?case by (auto split: if_splits)
next
  case (2 env category i current f fs)
  show ?case
  proof (cases "fits env category (digits_of i) (current @ [f])")
    case True
    with 2 show ?thesis by simp
  next
    case False
    with "2.prems" obtain rest where c: "current \<noteq> []"
      and r: "split_groups env category (Suc i) [] (f # fs) = Inr rest"
      and g: "groups = current # rest"
      by (auto split: if_splits sum.splits)
    show ?thesis
      using "2.IH"(2) [OF False c r] g by simp
  qed
qed

text \<open>What the packing engine returns: commands of groups that fit and that hold every fragment.\<close>

lemma pack_slots:
  assumes "pack env category fs = Inr commands"
  shows "\<exists>slots. concat (map snd slots) = fs \<and>
           commands = map (\<lambda>p. slot_command env category (fst p) (snd p)) slots \<and>
           (\<forall>p \<in> set slots. list_all is_digit (fst p) \<and> fits env category (fst p) (snd p))"
proof (cases "fits env category [] fs")
  case True
  with assms have "commands = [slot_command env category [] fs]"
    by (simp add: pack_def)
  with True show ?thesis
    by (intro exI [of _ "[([], fs)]"]) simp
next
  case False
  with assms obtain groups where g: "split_groups env category 0 [] fs = Inr groups"
    and c: "commands = map (\<lambda>p. slot_command env category (digits_of (fst p)) (snd p))
              (enumerate 0 groups)"
    by (auto simp: pack_def split: sum.splits if_splits)
  let ?slots = "map (\<lambda>p. (digits_of (fst p), snd p)) (enumerate 0 groups)"
  have "concat (map snd ?slots) = fs"
    using split_groups_concat [OF g] by (simp add: comp_def)
  moreover have "commands = map (\<lambda>p. slot_command env category (fst p) (snd p)) ?slots"
    by (simp add: c comp_def)
  moreover have "\<forall>p \<in> set ?slots. list_all is_digit (fst p) \<and> fits env category (fst p) (snd p)"
    using split_groups_fit [OF g] by (auto simp: digits_of_digits)
  ultimately show ?thesis by blast
qed

lemma pack_within_limit:
  assumes "pack env category fs = Inr commands" and "c \<in> set commands"
  shows "length c \<le> MAX_COMMAND_LENGTH env"
  using pack_slots [OF assms(1)] assms(2) by (auto simp: fits_def)

text \<open>
  A section is within the limit or is one of the commands, alone, that is itself
  over the limit.
\<close>

lemma group_sections_bound:
  assumes "length sec \<le> limit \<or> sec \<in> all"
    and "set cs \<subseteq> all" and "s \<in> set (group_sections limit sec cs)"
  shows "length s \<le> limit \<or> s \<in> all"
  using assms
proof (induction cs arbitrary: sec)
  case Nil
  then show ?case by auto
next
  case (Cons c cs)
  show ?case
  proof (cases "length (sec @ [CHR 0x0A] @ c) \<le> limit")
    case True
    with Cons.prems have "s \<in> set (group_sections limit (sec @ [CHR 0x0A] @ c) cs)"
      by simp
    moreover have "set cs \<subseteq> all"
      using Cons.prems(2) by simp
    ultimately show ?thesis
      using Cons.IH [of "sec @ [CHR 0x0A] @ c"] True by blast
  next
    case False
    with Cons.prems have "s = sec \<or> s \<in> set (group_sections limit c cs)"
      by simp
    moreover have "set cs \<subseteq> all" and "c \<in> all"
      using Cons.prems(2) by simp_all
    ultimately show ?thesis
      using Cons.IH [of c] Cons.prems(1) by blast
  qed
qed

lemma sections_of_bound:
  assumes "s \<in> set (sections_of limit commands)"
  shows "length s \<le> limit \<or> s \<in> set commands"
proof (cases commands)
  case Nil
  with assms show ?thesis by (simp add: sections_of_def)
next
  case (Cons c cs)
  with assms have "s \<in> set (group_sections limit c cs)"
    by (simp add: sections_of_def)
  from group_sections_bound [OF _ _ this, of "set commands"] Cons show ?thesis
    by auto
qed

text \<open>
  When the literal commands are within the limit, every section is: the invariant
  under the condition it needs.
\<close>

lemma sections_within_limit:
  assumes "buildLobbySections env config bundle = Inr sections"
    and "\<forall>c \<in> set (fst (mapToTweaks env config)). length c \<le> MAX_COMMAND_LENGTH env"
  shows "\<forall>s \<in> set sections. length s \<le> MAX_COMMAND_LENGTH env"
proof
  fix s
  assume s: "s \<in> set sections"
  obtain commands tweakdefRefs tweakunitRefs
    where m: "mapToTweaks env config = (commands, tweakdefRefs, tweakunitRefs)"
    by (cases "mapToTweaks env config") auto
  with assms(1) obtain defs units
    where d: "pack env ''tweakdefs'' (fragments bundle tweakdefRefs) = Inr defs"
      and u: "pack env ''tweakunits'' (fragments bundle tweakunitRefs) = Inr units"
      and r: "sections = sections_of (MAX_COMMAND_LENGTH env) (commands @ defs @ units)"
    by (auto simp: buildLobbySections_def split: sum.splits)
  have "\<forall>c \<in> set (commands @ defs @ units). length c \<le> MAX_COMMAND_LENGTH env"
    using assms(2) m pack_within_limit [OF d] pack_within_limit [OF u] by auto
  with sections_of_bound [of s "MAX_COMMAND_LENGTH env" "commands @ defs @ units"] s r
  show "length s \<le> MAX_COMMAND_LENGTH env"
    by blast
qed

subsection \<open>The encoder of the small builds\<close>













subsection \<open>The small builds\<close>











subsection \<open>The length of a section\<close>




subsection \<open>Reading the references back\<close>

























end
